theory Spec2Isabelle
  imports Main "HOL-Library.Word"
begin

section \<open>Data model\<close>

text \<open>
  A JavaScript string is a sequence of UTF-16 code units; \<open>length\<close>, \<open>substring\<close> and
  \<open>===\<close> work on code units, a regular expression with the \<open>u\<close> flag works on code points.
\<close>

type_synonym jsstring = "16 word list"

definition ascii :: "string \<Rightarrow> jsstring" where
  \<comment> \<open>a literal of ASCII characters as a JavaScript string\<close>
  "ascii s = map of_char s"

text \<open>\<^verbatim>\<open>enum MatchLevel { Strict, Normal, Homophone }\<close>\<close>

datatype MatchLevel = Strict | Normal | Homophone

fun levelNum :: "MatchLevel \<Rightarrow> nat" where
  "levelNum Strict = 0"
| "levelNum Normal = 1"
| "levelNum Homophone = 2"

text \<open>\<^verbatim>\<open>interface NinjutsuInfo\<close>, a row of the table \<^verbatim>\<open>ninjutsu\<close>.\<close>

record NinjutsuInfo =
  id' :: nat
  name :: jsstring
  description :: jsstring
  nameNoPunctuation :: jsstring
  namePinyin :: jsstring

text \<open>\<^verbatim>\<open>type NinjutsuInfoSourceData\<close>, an entry of the remote catalog.\<close>

record NinjutsuInfoSourceData =
  src_id :: nat
  src_name :: jsstring
  src_description :: jsstring

text \<open>\<^verbatim>\<open>interface Config\<close>; the schema makes both limits integers, at least 1 and 0.\<close>

record Config =
  matchLevel :: MatchLevel
  searchLimit :: nat
  descriptionPreviewLimit :: nat
  searchOnFailed :: bool

text \<open>
  The context: the rows of the table in the order the store returns them, and the optional
  service \<^verbatim>\<open>ctx.pinyin\<close> (\<^verbatim>\<open>pinyin(s, { style: 0 })\<close> returns an array of strings),
  \<open>None\<close> when the service is not injected.
\<close>

record Context =
  database :: "NinjutsuInfo list"
  pinyin :: "(jsstring \<Rightarrow> jsstring list) option"

datatype error = SyntaxError | TypeError | Unsupported

text \<open>
  What the JavaScript engine supplies and the repository does not contain: the Unicode
  General\_Category of the code points above U+00FF (whether it is one of P, S, Z), which depends
  on the Unicode version of the engine, \<^verbatim>\<open>String.prototype.toLowerCase\<close>, and the
  regular expressions beyond the patterns that are modelled below: for the source of such a
  pattern, the exception of the constructor \<^verbatim>\<open>RegExp\<close> or the predicate
  \<^verbatim>\<open>test\<close> of the expression it builds.
\<close>

record Engine =
  unicodePSZ :: "nat \<Rightarrow> bool"
  toLowerCase :: "jsstring \<Rightarrow> jsstring"
  otherRegExp :: "jsstring \<Rightarrow> error + (jsstring \<Rightarrow> bool)"

section \<open>removePunctuation\<close>

text \<open>
  \<^verbatim>\<open>s.replaceAll(/\p{P}|\p{S}|\p{Z}/ug, '')\<close>. Up to U+00FF the code points of the
  categories P (punctuation), S (symbol) and Z (separator) are listed; the control characters
  U+0000..U+001F and U+007F..U+009F (category Cc) are not among them.
\<close>

definition latin1PSZ :: "(nat \<times> nat) list" where
  "latin1PSZ = [(0x20, 0x2F), (0x3A, 0x40), (0x5B, 0x60), (0x7B, 0x7E), (0xA0, 0xA9),
     (0xAB, 0xAC), (0xAE, 0xB1), (0xB4, 0xB4), (0xB6, 0xB8), (0xBB, 0xBB), (0xBF, 0xBF),
     (0xD7, 0xD7), (0xF7, 0xF7)]"

definition isPSZ :: "Engine \<Rightarrow> nat \<Rightarrow> bool" where
  "isPSZ js cp = (if cp < 0x100 then list_ex (\<lambda>(lo, hi). lo \<le> cp \<and> cp \<le> hi) latin1PSZ
                  else unicodePSZ js cp)"

definition isHighSurrogate :: "16 word \<Rightarrow> bool" where
  "isHighSurrogate c = (0xD800 \<le> c \<and> c \<le> 0xDBFF)"

definition isLowSurrogate :: "16 word \<Rightarrow> bool" where
  "isLowSurrogate c = (0xDC00 \<le> c \<and> c \<le> 0xDFFF)"

definition codePointOfPair :: "16 word \<Rightarrow> 16 word \<Rightarrow> nat" where
  "codePointOfPair h l = 0x10000 + (unat h - 0xD800) * 0x400 + (unat l - 0xDC00)"

text \<open>
  The scan of the global replace: at each position one code point is read (a surrogate pair
  is one code point), dropped when the pattern matches it and copied otherwise.
\<close>

fun removePunctuation :: "Engine \<Rightarrow> jsstring \<Rightarrow> jsstring" where
  "removePunctuation js [] = []"
| "removePunctuation js [c] = (if isPSZ js (unat c) then [] else [c])"
| "removePunctuation js (c # d # s) =
     (if isHighSurrogate c \<and> isLowSurrogate d
      then (if isPSZ js (codePointOfPair c d) then removePunctuation js s
            else c # d # removePunctuation js s)
      else (if isPSZ js (unat c) then removePunctuation js (d # s)
            else c # removePunctuation js (d # s)))"

text \<open>The code points of a string (its iteration order) and the UTF-16 form of a code point.\<close>

fun codePoints :: "jsstring \<Rightarrow> nat list" where
  "codePoints [] = []"
| "codePoints [c] = [unat c]"
| "codePoints (c # d # s) =
     (if isHighSurrogate c \<and> isLowSurrogate d then codePointOfPair c d # codePoints s
      else unat c # codePoints (d # s))"

definition encodeCodePoint :: "nat \<Rightarrow> jsstring" where
  "encodeCodePoint cp =
     (if cp < 0x10000 then [of_nat cp]
      else [of_nat (0xD800 + (cp - 0x10000) div 0x400), of_nat (0xDC00 + (cp - 0x10000) mod 0x400)])"

section \<open>getDescriptionPreview\<close>

text \<open>
  \<^verbatim>\<open>if(!limit) return description;
  description = description.replaceAll('\n', ' ');
  if(description.length <= limit) return description;
  return description.substring(0, limit) + '\u2026';\<close>
\<close>

definition replaceNewlines :: "jsstring \<Rightarrow> jsstring" where
  "replaceNewlines d = map (\<lambda>c. if c = 0x0A then 0x20 else c) d"

definition getDescriptionPreview :: "Config \<Rightarrow> jsstring \<Rightarrow> jsstring" where
  "getDescriptionPreview cfg descr =
     (let limit = descriptionPreviewLimit cfg in
      if limit = 0 then descr
      else let descr' = replaceNewlines descr in
        if length descr' \<le> limit then descr'
        else take limit descr' @ [0x2026])"

section \<open>Tier strategy\<close>

text \<open>The three indexed columns, and \<^verbatim>\<open>row[propertyName]\<close>.\<close>

datatype Property = Name | NameNoPunctuation | NamePinyin

fun field :: "Property \<Rightarrow> NinjutsuInfo \<Rightarrow> jsstring" where
  "field Name row = name row"
| "field NameNoPunctuation row = nameNoPunctuation row"
| "field NamePinyin row = namePinyin row"

text \<open>
  \<^verbatim>\<open>getPinyin(s) { return this.ctx.pinyin.pinyin(s, { style: 0 }).join('').toLowerCase(); }\<close>
  is a method of the plugin \<^verbatim>\<open>NinjutsuPinyin\<close>, which declares \<^verbatim>\<open>inject = ['pinyin']\<close>
  and so exists only with the service: the service is its argument.
\<close>

definition getPinyin :: "Engine \<Rightarrow> (jsstring \<Rightarrow> jsstring list) \<Rightarrow> jsstring \<Rightarrow> jsstring" where
  "getPinyin js svc s = toLowerCase js (concat (svc s))"

text \<open>
  \<^verbatim>\<open>ctx.bail('get-pinyin', s)\<close>: the result of the listener \<^verbatim>\<open>getPinyin\<close>, and
  \<^verbatim>\<open>undefined\<close> (here \<open>None\<close>) when no listener is registered.
\<close>

definition bail_get_pinyin :: "Engine \<Rightarrow> Context \<Rightarrow> jsstring \<Rightarrow> jsstring option" where
  "bail_get_pinyin js ctx s = (case pinyin ctx of None \<Rightarrow> None | Some svc \<Rightarrow> Some (getPinyin js svc s))"

record MatchInfo =
  getKeyword :: "jsstring \<Rightarrow> jsstring option"
  propertyName :: Property

definition getMatchInfo :: "Engine \<Rightarrow> Context \<Rightarrow> MatchLevel \<Rightarrow> MatchInfo" where
  "getMatchInfo js ctx matchLevel0 =
     (let matchLevel' = (if matchLevel0 = Homophone \<and> pinyin ctx = None then Normal else matchLevel0)
      in \<lparr>getKeyword = (case matchLevel' of
                Strict \<Rightarrow> (\<lambda>nm. Some nm)
              | Normal \<Rightarrow> (\<lambda>nm. Some (removePunctuation js nm))
              | Homophone \<Rightarrow> (\<lambda>nm. bail_get_pinyin js ctx (removePunctuation js nm))),
          propertyName = (case matchLevel' of
                Strict \<Rightarrow> Name
              | Normal \<Rightarrow> NameNoPunctuation
              | Homophone \<Rightarrow> NamePinyin)\<rparr>)"

section \<open>Resolution: tryGetNinjutsu\<close>

text \<open>
  \<^verbatim>\<open>database.select('ninjutsu').where((row) => $.eq(row[propertyName], keyword)).execute()\<close>:
  the rows whose column equals the keyword, in store order. A query is logged as the column and
  the keyword it was issued with.
\<close>

type_synonym query = "Property \<times> jsstring option"

definition select_eq :: "Context \<Rightarrow> query \<Rightarrow> NinjutsuInfo list" where
  "select_eq ctx q = filter (\<lambda>row. Some (field (fst q) row) = snd q) (database ctx)"

definition first_row :: "NinjutsuInfo list \<Rightarrow> NinjutsuInfo option" where
  \<comment> \<open>\<^verbatim>\<open>res[0]\<close>, \<^verbatim>\<open>undefined\<close> on the empty array\<close>
  "first_row res = (case res of [] \<Rightarrow> None | r # _ \<Rightarrow> Some r)"

definition levelQuery :: "Engine \<Rightarrow> Context \<Rightarrow> jsstring \<Rightarrow> MatchLevel \<Rightarrow> query" where
  "levelQuery js ctx nm level =
     (let info = getMatchInfo js ctx level in (propertyName info, getKeyword info nm))"

definition tryGetNinjutsuAtLevel ::
  "Engine \<Rightarrow> Context \<Rightarrow> jsstring \<Rightarrow> MatchLevel \<Rightarrow> NinjutsuInfo option \<times> query list" where
  "tryGetNinjutsuAtLevel js ctx nm level =
     (let q = levelQuery js ctx nm level; res = select_eq ctx q in (first_row res, [q]))"

text \<open>\<^verbatim>\<open>for(let level=MatchLevel.Strict; level<=this.cfg.matchLevel; level++)\<close>\<close>

definition levelsUpTo :: "MatchLevel \<Rightarrow> MatchLevel list" where
  "levelsUpTo m = filter (\<lambda>level. levelNum level \<le> levelNum m) [Strict, Normal, Homophone]"

fun tryGetNinjutsuLoop ::
  "Engine \<Rightarrow> Context \<Rightarrow> jsstring \<Rightarrow> MatchLevel list \<Rightarrow> NinjutsuInfo option \<times> query list" where
  "tryGetNinjutsuLoop js ctx nm [] = (None, [])"
| "tryGetNinjutsuLoop js ctx nm (level # levels) =
     (case tryGetNinjutsuAtLevel js ctx nm level of
        (Some ninjutsu, qs) \<Rightarrow> (Some ninjutsu, qs)
      | (None, qs) \<Rightarrow> (case tryGetNinjutsuLoop js ctx nm levels of (r, qs') \<Rightarrow> (r, qs @ qs')))"

definition tryGetNinjutsu ::
  "Engine \<Rightarrow> Context \<Rightarrow> Config \<Rightarrow> jsstring \<Rightarrow> NinjutsuInfo option \<times> query list" where
  "tryGetNinjutsu js ctx cfg nm = tryGetNinjutsuLoop js ctx nm (levelsUpTo (matchLevel cfg))"

subsection \<open>The same two functions in src/index.tsx\<close>

text \<open>
  There \<^verbatim>\<open>tryGetNinjutsuAtLevel\<close> has no \<^verbatim>\<open>getMatchInfo\<close>; it starts with
  \<^verbatim>\<open>if(matchLevel === MatchLevel.Homophone && !this.ctx.pinyin) { return undefined; }\<close>
  and then reads the two tables with the level unchanged.
\<close>

definition tryGetNinjutsuAtLevel_index ::
  "Engine \<Rightarrow> Context \<Rightarrow> jsstring \<Rightarrow> MatchLevel \<Rightarrow> NinjutsuInfo option \<times> query list" where
  "tryGetNinjutsuAtLevel_index js ctx nm level =
     (if level = Homophone \<and> pinyin ctx = None then (None, [])
      else let target = (case level of
                  Strict \<Rightarrow> Some nm
                | Normal \<Rightarrow> Some (removePunctuation js nm)
                | Homophone \<Rightarrow> bail_get_pinyin js ctx (removePunctuation js nm));
               property = (case level of
                  Strict \<Rightarrow> Name
                | Normal \<Rightarrow> NameNoPunctuation
                | Homophone \<Rightarrow> NamePinyin);
               res = select_eq ctx (property, target)
           in (first_row res, [(property, target)]))"

fun tryGetNinjutsuLoop_index ::
  "Engine \<Rightarrow> Context \<Rightarrow> jsstring \<Rightarrow> MatchLevel list \<Rightarrow> NinjutsuInfo option \<times> query list" where
  "tryGetNinjutsuLoop_index js ctx nm [] = (None, [])"
| "tryGetNinjutsuLoop_index js ctx nm (level # levels) =
     (case tryGetNinjutsuAtLevel_index js ctx nm level of
        (Some ninjutsu, qs) \<Rightarrow> (Some ninjutsu, qs)
      | (None, qs) \<Rightarrow> (case tryGetNinjutsuLoop_index js ctx nm levels of (r, qs') \<Rightarrow> (r, qs @ qs')))"

definition tryGetNinjutsu_index ::
  "Engine \<Rightarrow> Context \<Rightarrow> Config \<Rightarrow> jsstring \<Rightarrow> NinjutsuInfo option \<times> query list" where
  "tryGetNinjutsu_index js ctx cfg nm = tryGetNinjutsuLoop_index js ctx nm (levelsUpTo (matchLevel cfg))"

section \<open>Search: regular expressions\<close>

text \<open>
  \<^verbatim>\<open>new RegExp(`.*${keyword}.*`)\<close> builds a pattern from the text of the keyword. The
  patterns made of pattern characters, \<^verbatim>\<open>.\<close>, a backslash before a syntax character, and
  \<^verbatim>\<open>*\<close> after one of these are parsed and matched here: \<open>newRegExp\<close> answers
  \<open>SyntaxError\<close>, the exception of the constructor, or the parsed pattern. For any other
  pattern \<open>newRegExp\<close> answers \<open>Unsupported\<close>, and \<open>regexOf\<close> below then asks the
  engine.
\<close>

definition syntaxCharacter :: "16 word \<Rightarrow> bool" where
  \<comment> \<open>\<^verbatim>\<open>^ $ \ . * + ? ( ) [ ] { } |\<close>\<close>
  "syntaxCharacter c = (c \<in> set [0x5E, 0x24, 0x5C, 0x2E, 0x2A, 0x2B, 0x3F, 0x28, 0x29, 0x5B, 0x5D,
     0x7B, 0x7D, 0x7C])"

datatype atom = Lit "16 word" | AnyChar

datatype token = TAtom atom | TStar

type_synonym regexp = "(atom \<times> bool) list"

definition consR :: "'a \<Rightarrow> error + 'a list \<Rightarrow> error + 'a list" where
  "consR x r = (case r of Inl e \<Rightarrow> Inl e | Inr xs \<Rightarrow> Inr (x # xs))"

definition plainToken :: "16 word \<Rightarrow> error + token" where
  "plainToken c =
     (if c = 0x2E then Inr (TAtom AnyChar)
      else if c = 0x2A then Inr TStar
      else if syntaxCharacter c then Inl Unsupported
      else Inr (TAtom (Lit c)))"

fun tokens :: "jsstring \<Rightarrow> error + token list" where
  "tokens [] = Inr []"
| "tokens [c] =
     (if c = 0x5C then Inl SyntaxError
      else case plainToken c of Inl e \<Rightarrow> Inl e | Inr t \<Rightarrow> Inr [t])"
| "tokens (c # d # ds) =
     (if c = 0x5C then (if syntaxCharacter d then consR (TAtom (Lit d)) (tokens ds) else Inl Unsupported)
      else case plainToken c of Inl e \<Rightarrow> Inl e | Inr t \<Rightarrow> consR t (tokens (d # ds)))"

fun terms :: "token list \<Rightarrow> error + regexp" where
  "terms [] = Inr []"
| "terms (TStar # ts) = Inl SyntaxError"
| "terms (TAtom a # TStar # ts) = consR (a, True) (terms ts)"
| "terms (TAtom a # ts) = consR (a, False) (terms ts)"

definition newRegExp :: "jsstring \<Rightarrow> error + regexp" where
  "newRegExp pattern = (case tokens pattern of Inl e \<Rightarrow> Inl e | Inr ts \<Rightarrow> terms ts)"

text \<open>Without the \<^verbatim>\<open>s\<close> flag \<^verbatim>\<open>.\<close> matches any code unit but a line terminator.\<close>

fun matchAtom :: "atom \<Rightarrow> 16 word \<Rightarrow> bool" where
  "matchAtom (Lit d) c = (c = d)"
| "matchAtom AnyChar c = (c \<notin> set [0x0A, 0x0D, 0x2028, 0x2029])"

fun matchHere :: "regexp \<Rightarrow> jsstring \<Rightarrow> bool" where
  "matchHere [] s = True"
| "matchHere ((a, False) # re) [] = False"
| "matchHere ((a, False) # re) (c # s) = (matchAtom a c \<and> matchHere re s)"
| "matchHere ((a, True) # re) [] = matchHere re []"
| "matchHere ((a, True) # re) (c # s) =
     (matchHere re (c # s) \<or> (matchAtom a c \<and> matchHere ((a, True) # re) s))"

text \<open>\<^verbatim>\<open>RegExp.prototype.test\<close>: the pattern matches at some position of the string.\<close>

fun test :: "regexp \<Rightarrow> jsstring \<Rightarrow> bool" where
  "test re [] = matchHere re []"
| "test re (c # s) = (matchHere re (c # s) \<or> test re s)"

text \<open>
  \<^verbatim>\<open>$.regex(row[propertyName], new RegExp(pattern))\<close>: the exception of the constructor
  or the predicate on the column, for every pattern.
\<close>

definition regexOf :: "Engine \<Rightarrow> jsstring \<Rightarrow> error + (jsstring \<Rightarrow> bool)" where
  "regexOf js pattern =
     (case newRegExp pattern of
        Inr re \<Rightarrow> Inr (test re)
      | Inl e \<Rightarrow> (if e = Unsupported then otherRegExp js pattern else Inl e))"

definition templateString :: "jsstring option \<Rightarrow> jsstring" where
  \<comment> \<open>\<^verbatim>\<open>${keyword}\<close> in a template literal\<close>
  "templateString k = (case k of None \<Rightarrow> ascii ''undefined'' | Some s \<Rightarrow> s)"

section \<open>Search: searchNinjutsuAtLevel and searchNinjutsu\<close>

definition searchNinjutsuAtLevel ::
  "Engine \<Rightarrow> Context \<Rightarrow> jsstring \<Rightarrow> nat \<Rightarrow> MatchLevel \<Rightarrow> error + NinjutsuInfo list" where
  "searchNinjutsuAtLevel js ctx nm limit level =
     (let info = getMatchInfo js ctx level;
          keyword = getKeyword info nm
      in case regexOf js (ascii ''.*'' @ templateString keyword @ ascii ''.*'') of
           Inl e \<Rightarrow> Inl e
         | Inr matches \<Rightarrow>
             Inr (take limit (filter (\<lambda>row. matches (field (propertyName info) row)) (database ctx))))"

text \<open>
  An object \<^verbatim>\<open>{ [id: number]: NinjutsuInfo }\<close>: its own properties in creation order.
  \<^verbatim>\<open>cur[ninjutsu.id] = ninjutsu\<close> overwrites the value of an existing key in place and
  appends a new key. The own keys are enumerated with the array indices (the integers below
  \<open>2^32 - 1\<close>) first, in ascending order, then the other keys in creation order.
\<close>

type_synonym obj = "(nat \<times> NinjutsuInfo) list"

fun setProp :: "obj \<Rightarrow> nat \<Rightarrow> NinjutsuInfo \<Rightarrow> obj" where
  "setProp [] k v = [(k, v)]"
| "setProp ((k', v') # ps) k v = (if k' = k then (k, v) # ps else (k', v') # setProp ps k v)"

definition isArrayIndex :: "nat \<Rightarrow> bool" where
  "isArrayIndex k = (k < 2 ^ 32 - 1)"

definition ownKeys :: "obj \<Rightarrow> nat list" where
  "ownKeys ob = sort (filter isArrayIndex (map fst ob)) @ filter (\<lambda>k. \<not> isArrayIndex k) (map fst ob)"

text \<open>
  \<^verbatim>\<open>for(let id in res)\<close> walks the prototype chain from \<^verbatim>\<open>res\<close>: the own keys of each
  object in turn, without the keys already visited. \<^verbatim>\<open>res[id]\<close> is the value in the first
  object of the chain that has the key.
\<close>

fun forIn :: "obj list \<Rightarrow> nat list \<Rightarrow> nat list" where
  "forIn [] visited = []"
| "forIn (ob # chain) visited =
     filter (\<lambda>k. k \<notin> set visited) (ownKeys ob) @ forIn chain (visited @ ownKeys ob)"

fun getProp :: "obj list \<Rightarrow> nat \<Rightarrow> NinjutsuInfo option" where
  "getProp [] k = None"
| "getProp (ob # chain) k = (case map_of ob k of Some v \<Rightarrow> Some v | None \<Rightarrow> getProp chain k)"

text \<open>
  The first loop of \<^verbatim>\<open>searchNinjutsu\<close>: one object per level, each made the prototype of
  the one before; \<^verbatim>\<open>res\<close> itself stays empty and heads the chain.
\<close>

definition toObject :: "NinjutsuInfo list \<Rightarrow> obj" where
  "toObject ninjutsus = foldl (\<lambda>cur ninjutsu. setProp cur (id' ninjutsu) ninjutsu) [] ninjutsus"

fun searchLevels ::
  "Engine \<Rightarrow> Context \<Rightarrow> jsstring \<Rightarrow> nat \<Rightarrow> MatchLevel list \<Rightarrow> error + obj list" where
  "searchLevels js ctx keyword limit [] = Inr []"
| "searchLevels js ctx keyword limit (level # levels) =
     (case searchNinjutsuAtLevel js ctx keyword limit level of
        Inl e \<Rightarrow> Inl e
      | Inr ninjutsus \<Rightarrow> consR (toObject ninjutsus) (searchLevels js ctx keyword limit levels))"

text \<open>
  The second loop: \<^verbatim>\<open>count++; if(count > limit) continue;\<close> and otherwise one more item.
  The state is the count and the entries rendered so far.
\<close>

fun renderLoop ::
  "obj list \<Rightarrow> nat \<Rightarrow> nat list \<Rightarrow> nat \<times> NinjutsuInfo list \<Rightarrow> error + nat \<times> NinjutsuInfo list" where
  "renderLoop res limit [] st = Inr st"
| "renderLoop res limit (k # ks) (count, shown) =
     (let ninjutsu = getProp res k; count' = count + 1
      in if count' > limit then renderLoop res limit ks (count', shown)
         else case ninjutsu of
                None \<Rightarrow> Inl TypeError
              | Some n \<Rightarrow> renderLoop res limit ks (count', shown @ [n]))"

definition searchEntries ::
  "Engine \<Rightarrow> Context \<Rightarrow> Config \<Rightarrow> nat option \<Rightarrow> jsstring \<Rightarrow> error + nat \<times> NinjutsuInfo list" where
  "searchEntries js ctx cfg limit0 keyword =
     (let limit = (case limit0 of None \<Rightarrow> searchLimit cfg | Some l \<Rightarrow> l)
      in case searchLevels js ctx keyword limit (levelsUpTo (matchLevel cfg)) of
           Inl e \<Rightarrow> Inl e
         | Inr curs \<Rightarrow> (let res = [] # curs in renderLoop res limit (forIn res []) (0, [])))"

text \<open>
  The reply: \<^verbatim>\<open>.no-result\<close> when the count is 0, else \<^verbatim>\<open>.result-title\<close> and one line
  per rendered entry with its name and the preview of its description.
\<close>

datatype reply = NoResult | ResultList "(jsstring \<times> jsstring) list"

definition searchNinjutsu ::
  "Engine \<Rightarrow> Context \<Rightarrow> Config \<Rightarrow> nat option \<Rightarrow> jsstring \<Rightarrow> error + reply" where
  "searchNinjutsu js ctx cfg limit0 keyword =
     (case searchEntries js ctx cfg limit0 keyword of
        Inl e \<Rightarrow> Inl e
      | Inr (count, shown) \<Rightarrow>
          if count = 0 then Inr NoResult
          else Inr (ResultList (map (\<lambda>n. (name n, getDescriptionPreview cfg (description n))) shown)))"

section \<open>Catalog updates\<close>

text \<open>
  \<^verbatim>\<open>database.upsert('ninjutsu', data)\<close> takes partial rows: a row with the same primary
  key \<^verbatim>\<open>id\<close> gets the fields that are present and keeps its others; otherwise a new row is
  created from the defaults of the model (the empty string for a string column) and appended.
\<close>

record NinjutsuUpdate =
  u_id :: nat
  u_name :: "jsstring option"
  u_description :: "jsstring option"
  u_nameNoPunctuation :: "jsstring option"
  u_namePinyin :: "jsstring option"

definition orKeep :: "'a option \<Rightarrow> 'a \<Rightarrow> 'a" where
  "orKeep new old = (case new of None \<Rightarrow> old | Some x \<Rightarrow> x)"

definition executeUpdate :: "NinjutsuInfo \<Rightarrow> NinjutsuUpdate \<Rightarrow> NinjutsuInfo" where
  "executeUpdate row u =
     \<lparr>id' = u_id u,
      name = orKeep (u_name u) (name row),
      description = orKeep (u_description u) (description row),
      nameNoPunctuation = orKeep (u_nameNoPunctuation u) (nameNoPunctuation row),
      namePinyin = orKeep (u_namePinyin u) (namePinyin row)\<rparr>"

definition createRow :: NinjutsuInfo where
  "createRow = \<lparr>id' = 0, name = [], description = [], nameNoPunctuation = [], namePinyin = []\<rparr>"

fun upsertRow :: "NinjutsuInfo list \<Rightarrow> NinjutsuUpdate \<Rightarrow> NinjutsuInfo list" where
  "upsertRow [] u = [executeUpdate createRow u]"
| "upsertRow (row # rows) u =
     (if id' row = u_id u then executeUpdate row u # rows else row # upsertRow rows u)"

definition upsert :: "NinjutsuInfo list \<Rightarrow> NinjutsuUpdate list \<Rightarrow> NinjutsuInfo list" where
  "upsert rows us = foldl upsertRow rows us"

text \<open>
  \<^verbatim>\<open>toNinjutsuInfo({ id, name, description })\<close> returns
  \<^verbatim>\<open>{ id, name, description, nameNoPunctuation }\<close>, with no \<^verbatim>\<open>namePinyin\<close>.
\<close>

definition toNinjutsuInfo :: "Engine \<Rightarrow> NinjutsuInfoSourceData \<Rightarrow> NinjutsuUpdate" where
  "toNinjutsuInfo js src =
     \<lparr>u_id = src_id src, u_name = Some (src_name src), u_description = Some (src_description src),
      u_nameNoPunctuation = Some (removePunctuation js (src_name src)), u_namePinyin = None\<rparr>"

definition wholeRow :: "NinjutsuInfo \<Rightarrow> NinjutsuUpdate" where
  \<comment> \<open>a row read from the table and written back: every field is present\<close>
  "wholeRow row =
     \<lparr>u_id = id' row, u_name = Some (name row), u_description = Some (description row),
      u_nameNoPunctuation = Some (nameNoPunctuation row), u_namePinyin = Some (namePinyin row)\<rparr>"

text \<open>
  \<^verbatim>\<open>updateDatabasePinyin\<close>: select the rows with \<^verbatim>\<open>namePinyin\<close> equal to the empty
  string, set \<^verbatim>\<open>info.namePinyin = this.ctx.bail('get-pinyin', info.nameNoPunctuation)\<close> in
  each, upsert them.
\<close>

definition updateDatabasePinyin ::
  "Engine \<Rightarrow> (jsstring \<Rightarrow> jsstring list) \<Rightarrow> NinjutsuInfo list \<Rightarrow> NinjutsuInfo list" where
  "updateDatabasePinyin js svc rows =
     (let data = filter (\<lambda>row. namePinyin row = []) rows;
          data' = map (\<lambda>info. info\<lparr>namePinyin := getPinyin js svc (nameNoPunctuation info)\<rparr>) data
      in upsert rows (map wholeRow data'))"

text \<open>
  The event \<^verbatim>\<open>ninjutsu-database-update\<close> (and \<^verbatim>\<open>ready\<close>) runs the backfill when the
  plugin \<^verbatim>\<open>NinjutsuPinyin\<close> is loaded, that is when the service is there.
\<close>

definition emitDatabaseUpdate :: "Engine \<Rightarrow> Context \<Rightarrow> Context" where
  "emitDatabaseUpdate js ctx =
     (case pinyin ctx of
        None \<Rightarrow> ctx
      | Some svc \<Rightarrow> ctx\<lparr>database := updateDatabasePinyin js svc (database ctx)\<rparr>)"

text \<open>\<^verbatim>\<open>updateDatabase\<close>, from the list \<^verbatim>\<open>data.jutsus\<close> that the remote source returned.\<close>

definition updateDatabase :: "Engine \<Rightarrow> Context \<Rightarrow> NinjutsuInfoSourceData list \<Rightarrow> Context" where
  "updateDatabase js ctx jutsus =
     emitDatabaseUpdate js (ctx\<lparr>database := upsert (database ctx) (map (toNinjutsuInfo js) jutsus)\<rparr>)"

section \<open>Notions used in the statements\<close>

text \<open>A contiguous, case-sensitive occurrence of \<open>k\<close> in \<open>s\<close>.\<close>

fun startsWith :: "jsstring \<Rightarrow> jsstring \<Rightarrow> bool" where
  "startsWith s [] = True"
| "startsWith [] (c # k) = False"
| "startsWith (d # s) (c # k) = (d = c \<and> startsWith s k)"

fun hasSubstring :: "jsstring \<Rightarrow> jsstring \<Rightarrow> bool" where
  "hasSubstring [] k = startsWith [] k"
| "hasSubstring (d # s) k = (startsWith (d # s) k \<or> hasSubstring s k)"

text \<open>
  An engine for concrete inputs: it lower-cases the ASCII letters and knows no punctuation above
  U+00FF, as any engine does on strings of ASCII characters, and it declines every pattern that
  is not modelled here. A service that returns each code unit of its input as one string, as a
  transliteration does on text without Chinese characters.
\<close>

definition testEngine :: Engine where
  "testEngine = \<lparr>unicodePSZ = (\<lambda>_. False),
     toLowerCase = map (\<lambda>c. if 0x41 \<le> c \<and> c \<le> 0x5A then c + 0x20 else c),
     otherRegExp = (\<lambda>_. Inl Unsupported)\<rparr>"

definition testPinyin :: "jsstring \<Rightarrow> jsstring list" where
  "testPinyin s = map (\<lambda>c. [c]) s"

definition mkRow :: "nat \<Rightarrow> string \<Rightarrow> string \<Rightarrow> string \<Rightarrow> NinjutsuInfo" where
  "mkRow i n nnp py = \<lparr>id' = i, name = ascii n, description = [], nameNoPunctuation = ascii nnp,
     namePinyin = ascii py\<rparr>"

text \<open>The rows that the exact-match query of a level returns, in store order.\<close>

definition levelRows :: "Engine \<Rightarrow> Context \<Rightarrow> jsstring \<Rightarrow> MatchLevel \<Rightarrow> NinjutsuInfo list" where
  "levelRows js ctx nm level = select_eq ctx (levelQuery js ctx nm level)"

text \<open>A catalog of two entries, stored in the order 2, 1, without the phonetic service.\<close>

definition ctxA :: Context where
  "ctxA = \<lparr>database = [mkRow 2 ''ab'' ''ab'' [], mkRow 1 ''ac'' ''ac'' []], pinyin = None\<rparr>"

text \<open>
  A catalog of three entries stored in the order 1, 5, 3: the names of 5 and 3 contain
  \<^verbatim>\<open>ab\<close>, the name of 1 only after its punctuation is removed.
\<close>

definition ctxB :: Context where
  "ctxB = \<lparr>database = [mkRow 1 ''a-b'' ''ab'' [], mkRow 5 ''ab'' ''ab'' [], mkRow 3 ''xab'' ''xab'' []],
     pinyin = None\<rparr>"

definition cfgOf :: "MatchLevel \<Rightarrow> Config" where
  "cfgOf m = \<lparr>matchLevel = m, searchLimit = 10, descriptionPreviewLimit = 10, searchOnFailed = True\<rparr>"

text \<open>An empty catalog with the phonetic service, and an entry of the remote source.\<close>

definition ctxP :: Context where
  "ctxP = \<lparr>database = [], pinyin = Some testPinyin\<rparr>"

definition mkSrc :: "nat \<Rightarrow> string \<Rightarrow> NinjutsuInfoSourceData" where
  "mkSrc i n = \<lparr>src_id = i, src_name = ascii n, src_description = []\<rparr>"

text \<open>A row after the backfill: only an empty \<open>namePinyin\<close> is written.\<close>

definition backfilled :: "Engine \<Rightarrow> (jsstring \<Rightarrow> jsstring list) \<Rightarrow> NinjutsuInfo \<Rightarrow> NinjutsuInfo" where
  "backfilled js svc row =
     (if namePinyin row = [] then row\<lparr>namePinyin := getPinyin js svc (nameNoPunctuation row)\<rparr>
      else row)"

text \<open>
  The rows of one level's search query (none when the pattern is rejected), the ids of the rows
  of all levels without repetition, the position of the first level whose query returned an id,
  and the order by that position and then by id.
\<close>

definition levelMatches :: "Engine \<Rightarrow> Context \<Rightarrow> jsstring \<Rightarrow> nat \<Rightarrow> MatchLevel \<Rightarrow> NinjutsuInfo list" where
  "levelMatches js ctx keyword limit level =
     (case searchNinjutsuAtLevel js ctx keyword limit level of Inl e \<Rightarrow> [] | Inr rows \<Rightarrow> rows)"

definition matchedIds :: "Engine \<Rightarrow> Context \<Rightarrow> jsstring \<Rightarrow> nat \<Rightarrow> MatchLevel list \<Rightarrow> nat list" where
  "matchedIds js ctx keyword limit levels =
     remdups (concat (map (\<lambda>level. map id' (levelMatches js ctx keyword limit level)) levels))"

fun tierOf :: "Engine \<Rightarrow> Context \<Rightarrow> jsstring \<Rightarrow> nat \<Rightarrow> MatchLevel list \<Rightarrow> nat \<Rightarrow> nat" where
  "tierOf js ctx keyword limit [] k = 0"
| "tierOf js ctx keyword limit (level # levels) k =
     (if k \<in> id' ` set (levelMatches js ctx keyword limit level) then 0
      else Suc (tierOf js ctx keyword limit levels k))"

definition tierThenId :: "(nat \<Rightarrow> nat) \<Rightarrow> nat \<Rightarrow> nat \<Rightarrow> bool" where
  "tierThenId tier a b = (tier a < tier b \<or> (tier a = tier b \<and> a < b))"

text \<open>Every property of an object built from \<open>rows\<close> is one of the rows, under its id.\<close>

definition holds :: "NinjutsuInfo list \<Rightarrow> obj \<Rightarrow> bool" where
  "holds rows ob = (\<forall>(k, v) \<in> set ob. v \<in> set rows \<and> id' v = k)"

section \<open>Properties of removePunctuation\<close>

lemma unat16_less: "unat (c::16 word) < 0x10000"
  using unsigned_less [of c] by simp

lemma encode_unit: "encodeCodePoint (unat (c::16 word)) = [c]"
  using unat16_less [of c] by (simp add: encodeCodePoint_def)

lemma encode_pair:
  assumes "isHighSurrogate c" "isLowSurrogate d"
  shows "encodeCodePoint (codePointOfPair c d) = [c, d]"
proof -
  define a where "a = unat c - 0xD800"
  define b where "b = unat d - 0xDC00"
  have hc: "unat c = 0xD800 + a" "a < 0x400"
    using assms(1) unfolding isHighSurrogate_def word_le_nat_alt a_def by auto
  have hd: "unat d = 0xDC00 + b" "b < 0x400"
    using assms(2) unfolding isLowSurrogate_def word_le_nat_alt b_def by auto
  have cp: "codePointOfPair c d = 0x10000 + (a * 0x400 + b)"
    by (simp add: codePointOfPair_def a_def b_def)
  have dv: "(a * 0x400 + b) div 0x400 = a" and md: "(a * 0x400 + b) mod 0x400 = b"
    using hd(2) by simp_all
  have "(of_nat (0xD800 + a) :: 16 word) = c" "(of_nat (0xDC00 + b) :: 16 word) = d"
    using hc(1) hd(1) by (metis of_nat_unat ucast_id)+
  then show ?thesis
    unfolding encodeCodePoint_def cp using dv md by simp
qed

lemma removePunctuation_filter:
  "removePunctuation js s =
     concat (map encodeCodePoint (filter (\<lambda>cp. \<not> isPSZ js cp) (codePoints s)))"
  by (induction js s rule: removePunctuation.induct) (simp_all add: encode_unit encode_pair)

lemmas eval_strings = ascii_def isPSZ_def latin1PSZ_def isHighSurrogate_def isLowSurrogate_def

text \<open>
  C7, as the claim states it, fails: a tab (U+0009) and a newline (U+000A) are whitespace but
  belong to the category Cc, which the pattern does not name, and \<open>removePunctuation\<close>
  returns the string \<^verbatim>\<open>"a\t\nb"\<close> unchanged.
\<close>

theorem removePunctuation_keeps_tab_and_newline:
  "removePunctuation testEngine [0x61, 0x09, 0x0A, 0x62] = [0x61, 0x09, 0x0A, 0x62]"
  by (simp add: eval_strings)

text \<open>
  C7, amended: \<open>removePunctuation\<close> is a total function that removes from the code points
  of its input exactly those of the general categories P, S and Z and keeps the others in their
  order; the empty string gives the empty string; the space U+0020 is removed, the tab U+0009 and
  the newline U+000A are kept.
\<close>

theorem removePunctuation_removes_P_S_Z:
  "removePunctuation js s =
     concat (map encodeCodePoint (filter (\<lambda>cp. \<not> isPSZ js cp) (codePoints s)))
   \<and> removePunctuation js [] = []
   \<and> removePunctuation js [0x20] = []
   \<and> removePunctuation js [0x09] = [0x09]
   \<and> removePunctuation js [0x0A] = [0x0A]"
  using removePunctuation_filter [of js s] by (simp add: isPSZ_def latin1PSZ_def)

theorem removePunctuation_removes_P_S_Z_witness:
  "removePunctuation testEngine (ascii ''Fire Style!'') = ascii ''FireStyle''
   \<and> concat (map encodeCodePoint (filter (\<lambda>cp. \<not> isPSZ testEngine cp)
        (codePoints (ascii ''Fire Style!'')))) = ascii ''FireStyle''"
proof -
  have a: "removePunctuation testEngine (ascii ''Fire Style!'') = ascii ''FireStyle''"
    by (simp add: eval_strings)
  have b: "removePunctuation testEngine (ascii ''Fire Style!'') =
      concat (map encodeCodePoint (filter (\<lambda>cp. \<not> isPSZ testEngine cp)
        (codePoints (ascii ''Fire Style!''))))"
    by (rule removePunctuation_removes_P_S_Z [THEN conjunct1])
  show ?thesis using a b by (rule_tac conjI) (simp_all only:)
qed

section \<open>Properties of getDescriptionPreview\<close>

text \<open>
  C10: with the limit 0 the preview is the description unchanged. With a limit \<open>L\<close> of at
  least 1, and \<open>d'\<close> the description with every newline replaced by a space, the preview is
  \<open>d'\<close> when \<open>d'\<close> has at most \<open>L\<close> code units and otherwise its first \<open>L\<close> code
  units followed by U+2026; it has no newline and at most \<open>L + 1\<close> code units.
\<close>

theorem getDescriptionPreview_spec:
  "getDescriptionPreview cfg d =
     (if descriptionPreviewLimit cfg = 0 then d
      else if length d \<le> descriptionPreviewLimit cfg
        then map (\<lambda>c. if c = 0x0A then 0x20 else c) d
        else map (\<lambda>c. if c = 0x0A then 0x20 else c) (take (descriptionPreviewLimit cfg) d) @ [0x2026])
   \<and> (1 \<le> descriptionPreviewLimit cfg \<longrightarrow>
        length (getDescriptionPreview cfg d) \<le> descriptionPreviewLimit cfg + 1
        \<and> 0x0A \<notin> set (getDescriptionPreview cfg d))"
  by (auto simp: getDescriptionPreview_def replaceNewlines_def Let_def take_map)

theorem getDescriptionPreview_spec_witness:
  "1 \<le> descriptionPreviewLimit \<lparr>matchLevel = Normal, searchLimit = 10, descriptionPreviewLimit = 3,
       searchOnFailed = True\<rparr>
   \<and> getDescriptionPreview \<lparr>matchLevel = Normal, searchLimit = 10, descriptionPreviewLimit = 3,
       searchOnFailed = True\<rparr> [0x61, 0x0A, 0x62, 0x63] = [0x61, 0x20, 0x62, 0x2026]
   \<and> length (getDescriptionPreview \<lparr>matchLevel = Normal, searchLimit = 10, descriptionPreviewLimit = 3,
       searchOnFailed = True\<rparr> [0x61, 0x0A, 0x62, 0x63]) \<le> 3 + 1"
  using getDescriptionPreview_spec [of "\<lparr>matchLevel = Normal, searchLimit = 10,
      descriptionPreviewLimit = 3, searchOnFailed = True\<rparr>" "[0x61, 0x0A, 0x62, 0x63]"]
  by simp

section \<open>Properties of the tier strategy and of resolution\<close>

lemma getMatchInfo_no_pinyin:
  "pinyin ctx = None \<Longrightarrow> getMatchInfo js ctx Homophone = getMatchInfo js ctx Normal"
  by (simp add: getMatchInfo_def)

lemma getMatchInfo_Normal:
  "getMatchInfo js ctx Normal =
     \<lparr>getKeyword = (\<lambda>nm. Some (removePunctuation js nm)), propertyName = NameNoPunctuation\<rparr>"
  by (simp add: getMatchInfo_def)

text \<open>
  C1, as the claim states it, fails on src/index.tsx: without the service its
  \<open>tryGetNinjutsuAtLevel\<close> skips the level Homophone, issuing no query and returning
  \<^verbatim>\<open>undefined\<close>, for a name that the level Normal resolves.
\<close>

theorem tryGetNinjutsuAtLevel_index_skips_Homophone:
  "pinyin ctxA = None
   \<and> tryGetNinjutsuAtLevel_index testEngine ctxA (ascii ''a-c'') Homophone = (None, [])
   \<and> fst (tryGetNinjutsuAtLevel_index testEngine ctxA (ascii ''a-c'') Normal) =
       Some (mkRow 1 ''ac'' ''ac'' [])"
  by (simp add: ctxA_def tryGetNinjutsuAtLevel_index_def select_eq_def first_row_def mkRow_def
      eval_strings)

text \<open>
  C1, amended: without the service, \<open>getMatchInfo\<close> gives the level Homophone exactly the
  strategy of the level Normal, the key \<open>removePunctuation\<close> of the query and the column
  \<open>nameNoPunctuation\<close>, so that the lookup and the search of the level Homophone are those of
  the level Normal; in src/index.tsx the lookup of the level Homophone is skipped instead.
\<close>

theorem getMatchInfo_downgrades_Homophone:
  assumes "pinyin ctx = None"
  shows "getMatchInfo js ctx Homophone = getMatchInfo js ctx Normal
    \<and> propertyName (getMatchInfo js ctx Homophone) = NameNoPunctuation
    \<and> getKeyword (getMatchInfo js ctx Homophone) q = Some (removePunctuation js q)
    \<and> tryGetNinjutsuAtLevel js ctx q Homophone = tryGetNinjutsuAtLevel js ctx q Normal
    \<and> searchNinjutsuAtLevel js ctx q limit Homophone = searchNinjutsuAtLevel js ctx q limit Normal
    \<and> tryGetNinjutsuAtLevel_index js ctx q Homophone = (None, [])"
  using assms
  by (simp add: getMatchInfo_no_pinyin getMatchInfo_Normal tryGetNinjutsuAtLevel_def levelQuery_def
      searchNinjutsuAtLevel_def tryGetNinjutsuAtLevel_index_def)

theorem getMatchInfo_downgrades_Homophone_witness:
  "pinyin ctxA = None
   \<and> getMatchInfo testEngine ctxA Homophone = getMatchInfo testEngine ctxA Normal
   \<and> tryGetNinjutsuAtLevel testEngine ctxA (ascii ''a-c'') Homophone =
       tryGetNinjutsuAtLevel testEngine ctxA (ascii ''a-c'') Normal"
proof -
  have h: "pinyin ctxA = None" by (simp add: ctxA_def)
  from getMatchInfo_downgrades_Homophone [OF h, of testEngine "ascii ''a-c''"]
  show ?thesis using h by simp
qed

text \<open>
  C6: without the service, resolution up to the level Homophone returns what resolution up to
  the level Normal returns, the same entry or none, in both versions of the module.
\<close>

theorem tryGetNinjutsu_Homophone_eq_Normal:
  assumes "pinyin ctx = None"
  shows "fst (tryGetNinjutsu js ctx (cfg\<lparr>matchLevel := Homophone\<rparr>) q) =
         fst (tryGetNinjutsu js ctx (cfg\<lparr>matchLevel := Normal\<rparr>) q)
       \<and> fst (tryGetNinjutsu_index js ctx (cfg\<lparr>matchLevel := Homophone\<rparr>) q) =
         fst (tryGetNinjutsu_index js ctx (cfg\<lparr>matchLevel := Normal\<rparr>) q)"
  using assms
  by (auto simp add: tryGetNinjutsu_def tryGetNinjutsu_index_def levelsUpTo_def
      tryGetNinjutsuAtLevel_def tryGetNinjutsuAtLevel_index_def levelQuery_def getMatchInfo_no_pinyin
      Let_def split: option.splits prod.splits)

theorem tryGetNinjutsu_Homophone_eq_Normal_witness:
  "pinyin ctxA = None
   \<and> fst (tryGetNinjutsu testEngine ctxA ((cfgOf Strict)\<lparr>matchLevel := Homophone\<rparr>) (ascii ''a-c'')) =
     fst (tryGetNinjutsu testEngine ctxA ((cfgOf Strict)\<lparr>matchLevel := Normal\<rparr>) (ascii ''a-c''))"
proof -
  have h: "pinyin ctxA = None" by (simp add: ctxA_def)
  from tryGetNinjutsu_Homophone_eq_Normal [OF h, of testEngine "cfgOf Strict" "ascii ''a-c''"]
  show ?thesis using h by simp
qed

lemma all_levels: "(\<forall>l. P l) = (P Strict \<and> P Normal \<and> P Homophone)"
  by (metis MatchLevel.exhaust)

lemma tryGetNinjutsuLoop_result:
  "tryGetNinjutsuLoop js ctx nm levels = (r, qs) \<Longrightarrow>
    (case r of
       None \<Rightarrow> (\<forall>level \<in> set levels. levelRows js ctx nm level = [])
               \<and> qs = map (levelQuery js ctx nm) levels
     | Some ninjutsu \<Rightarrow> (\<exists>pre level post rest. levels = pre @ level # post
               \<and> levelRows js ctx nm level = ninjutsu # rest
               \<and> (\<forall>l' \<in> set pre. levelRows js ctx nm l' = [])
               \<and> qs = map (levelQuery js ctx nm) (pre @ [level])))"
proof (induction levels arbitrary: r qs)
  case Nil
  then show ?case by simp
next
  case (Cons level levels)
  show ?case
  proof (cases "levelRows js ctx nm level")
    case Nil
    obtain r' qs' where rec: "tryGetNinjutsuLoop js ctx nm levels = (r', qs')"
      by (cases "tryGetNinjutsuLoop js ctx nm levels")
    from Cons.prems Nil rec have eq: "r = r'" "qs = levelQuery js ctx nm level # qs'"
      by (simp_all add: tryGetNinjutsuAtLevel_def levelRows_def first_row_def)
    show ?thesis
    proof (cases r')
      case None
      with Cons.IH [OF rec] eq Nil show ?thesis by simp
    next
      case (Some n)
      with Cons.IH [OF rec] obtain pre l post rest where
        h: "levels = pre @ l # post" "levelRows js ctx nm l = n # rest"
           "\<forall>l' \<in> set pre. levelRows js ctx nm l' = []"
           "qs' = map (levelQuery js ctx nm) (pre @ [l])"
        by auto
      have "level # levels = (level # pre) @ l # post" using h(1) by simp
      moreover have "\<forall>l' \<in> set (level # pre). levelRows js ctx nm l' = []" using h(3) Nil by simp
      moreover have "qs = map (levelQuery js ctx nm) ((level # pre) @ [l])" using eq(2) h(4) by simp
      ultimately show ?thesis using Some eq(1) h(2) by (simp only: option.case) blast
    qed
  next
    case (Cons row rest)
    with Cons.prems have "r = Some row" "qs = [levelQuery js ctx nm level]"
      by (simp_all add: tryGetNinjutsuAtLevel_def levelRows_def first_row_def)
    then show ?thesis using Cons by (simp only: option.case) (rule exI[of _ "[]"], auto)
  qed
qed

lemma levelsUpTo_split:
  assumes "levelsUpTo m = pre @ level # post"
  shows "levelNum level \<le> levelNum m" "set pre = {l. levelNum l < levelNum level}"
    "pre @ [level] = levelsUpTo level"
proof -
  have "(pre = [] \<and> level = Strict) \<or> (pre = [Strict] \<and> level = Normal \<and> m \<noteq> Strict)
      \<or> (pre = [Strict, Normal] \<and> level = Homophone \<and> m = Homophone)"
    using assms by (cases m) (auto simp add: levelsUpTo_def Cons_eq_append_conv)
  then show "levelNum level \<le> levelNum m" "set pre = {l. levelNum l < levelNum level}"
    "pre @ [level] = levelsUpTo level"
    by (cases m; auto simp add: levelsUpTo_def all_levels set_eq_iff)+
qed

lemma set_levelsUpTo: "l \<in> set (levelsUpTo m) \<longleftrightarrow> levelNum l \<le> levelNum m"
  by (cases m; cases l; simp add: levelsUpTo_def)

text \<open>
  C5: \<open>tryGetNinjutsu\<close> returns an entry exactly when some level up to the configured one
  has a row for its exact-match query; the entry is then the first row of the first such level,
  and the queries issued are those of the levels up to that one and of no later level. When no
  level has a row the result is \<^verbatim>\<open>undefined\<close> and every level was queried.
\<close>

theorem tryGetNinjutsu_first_hit:
  assumes "tryGetNinjutsu js ctx cfg nm = (r, qs)"
  shows "case r of
       None \<Rightarrow> (\<forall>level. levelNum level \<le> levelNum (matchLevel cfg) \<longrightarrow> levelRows js ctx nm level = [])
               \<and> qs = map (levelQuery js ctx nm) (levelsUpTo (matchLevel cfg))
     | Some ninjutsu \<Rightarrow> (\<exists>level rest. levelNum level \<le> levelNum (matchLevel cfg)
               \<and> levelRows js ctx nm level = ninjutsu # rest
               \<and> (\<forall>l'. levelNum l' < levelNum level \<longrightarrow> levelRows js ctx nm l' = [])
               \<and> qs = map (levelQuery js ctx nm) (levelsUpTo level))"
proof (cases r)
  case None
  with tryGetNinjutsuLoop_result [OF assms [unfolded tryGetNinjutsu_def]] show ?thesis
    by (simp add: set_levelsUpTo)
next
  case (Some n)
  with tryGetNinjutsuLoop_result [OF assms [unfolded tryGetNinjutsu_def]]
  obtain pre level post rest where
    h: "levelsUpTo (matchLevel cfg) = pre @ level # post" "levelRows js ctx nm level = n # rest"
       "\<forall>l' \<in> set pre. levelRows js ctx nm l' = []"
       "qs = map (levelQuery js ctx nm) (pre @ [level])"
    by auto
  note s = levelsUpTo_split [OF h(1)]
  have "\<forall>l'. levelNum l' < levelNum level \<longrightarrow> levelRows js ctx nm l' = []"
    using h(3) s(2) by simp
  then show ?thesis using Some h(2) h(4) s(1) s(3) by (simp only: option.case) blast
qed

theorem tryGetNinjutsu_first_hit_witness:
  "tryGetNinjutsu testEngine ctxA (cfgOf Homophone) (ascii ''a-c'') =
     (Some (mkRow 1 ''ac'' ''ac'' []),
      [(Name, Some (ascii ''a-c'')), (NameNoPunctuation, Some (ascii ''ac''))])
   \<and> (\<exists>level rest. levelNum level \<le> levelNum (matchLevel (cfgOf Homophone))
         \<and> levelRows testEngine ctxA (ascii ''a-c'') level = mkRow 1 ''ac'' ''ac'' [] # rest
         \<and> (\<forall>l'. levelNum l' < levelNum level \<longrightarrow> levelRows testEngine ctxA (ascii ''a-c'') l' = [])
         \<and> [(Name, Some (ascii ''a-c'')), (NameNoPunctuation, Some (ascii ''ac''))] =
             map (levelQuery testEngine ctxA (ascii ''a-c'')) (levelsUpTo level))"
proof -
  have h: "tryGetNinjutsu testEngine ctxA (cfgOf Homophone) (ascii ''a-c'') =
     (Some (mkRow 1 ''ac'' ''ac'' []),
      [(Name, Some (ascii ''a-c'')), (NameNoPunctuation, Some (ascii ''ac''))])"
    by (simp add: tryGetNinjutsu_def cfgOf_def levelsUpTo_def tryGetNinjutsuAtLevel_def levelQuery_def
        getMatchInfo_def ctxA_def select_eq_def first_row_def mkRow_def eval_strings)
  from tryGetNinjutsu_first_hit [OF h] show ?thesis using h by simp
qed

section \<open>Properties of the search query\<close>

lemmas eval_regexp = searchNinjutsuAtLevel_def getMatchInfo_def templateString_def regexOf_def
  newRegExp_def
  plainToken_def syntaxCharacter_def consR_def

text \<open>
  C3 is right about a substring search and the code misses it for a keyword with syntax
  characters, which go into the pattern unescaped. For the keyword \<^verbatim>\<open>.\<close> the pattern is
  \<^verbatim>\<open>.*..*\<close> and the query of the level Strict returns both rows of the catalog, whose names
  \<^verbatim>\<open>ab\<close> and \<^verbatim>\<open>ac\<close> do not contain the keyword; for the keyword \<^verbatim>\<open>*\<close> the
  constructor throws.
\<close>

theorem searchNinjutsuAtLevel_keyword_is_a_pattern:
  "searchNinjutsuAtLevel testEngine ctxA (ascii ''.'') 10 Strict =
     Inr [mkRow 2 ''ab'' ''ab'' [], mkRow 1 ''ac'' ''ac'' []]
   \<and> \<not> hasSubstring (field Name (mkRow 2 ''ab'' ''ab'' [])) (ascii ''.'')
   \<and> \<not> hasSubstring (field Name (mkRow 1 ''ac'' ''ac'' [])) (ascii ''.'')
   \<and> searchNinjutsuAtLevel testEngine ctxA (ascii ''*'') 10 Strict = Inl SyntaxError"
  by (simp add: eval_regexp ctxA_def mkRow_def ascii_def)

text \<open>
  For a keyword whose key has no syntax character the pattern is the key between two
  \<^verbatim>\<open>.*\<close>, and the query is the substring search.
\<close>

lemma tokens_plain:
  "c \<noteq> 0x5C \<Longrightarrow> tokens (c # s) = (case plainToken c of Inl e \<Rightarrow> Inl e | Inr t \<Rightarrow> consR t (tokens s))"
  by (cases s) (simp_all add: consR_def split: sum.splits)

lemma plainToken_literal: "\<not> syntaxCharacter c \<Longrightarrow> plainToken c = Inr (TAtom (Lit c)) \<and> c \<noteq> 0x5C"
  by (auto simp add: plainToken_def syntaxCharacter_def)

lemma tokens_literals:
  "\<forall>c \<in> set k. \<not> syntaxCharacter c \<Longrightarrow> tokens r = Inr ts \<Longrightarrow>
   tokens (k @ r) = Inr (map (\<lambda>c. TAtom (Lit c)) k @ ts)"
proof (induction k)
  case Nil then show ?case by simp
next
  case (Cons c k)
  then show ?case using plainToken_literal [of c] by (simp add: tokens_plain consR_def)
qed

lemma terms_literals:
  "terms (map (\<lambda>c. TAtom (Lit c)) k @ [TAtom AnyChar, TStar]) =
     Inr (map (\<lambda>c. (Lit c, False)) k @ [(AnyChar, True)])"
proof (induction k)
  case Nil then show ?case by (simp add: consR_def)
next
  case (Cons c k)
  then show ?case by (cases k) (simp_all add: consR_def)
qed

lemma newRegExp_literals:
  assumes "\<forall>c \<in> set k. \<not> syntaxCharacter c"
  shows "newRegExp (ascii ''.*'' @ k @ ascii ''.*'') =
     Inr ((AnyChar, True) # map (\<lambda>c. (Lit c, False)) k @ [(AnyChar, True)])"
proof -
  have e: "tokens (ascii ''.*'') = Inr [TAtom AnyChar, TStar]"
    by (simp add: ascii_def plainToken_def consR_def)
  have "tokens (k @ ascii ''.*'') = Inr (map (\<lambda>c. TAtom (Lit c)) k @ [TAtom AnyChar, TStar])"
    by (rule tokens_literals [OF assms e])
  then have "tokens (ascii ''.*'' @ k @ ascii ''.*'') =
      Inr (TAtom AnyChar # TStar # map (\<lambda>c. TAtom (Lit c)) k @ [TAtom AnyChar, TStar])"
    by (simp add: ascii_def tokens_plain plainToken_def consR_def)
  then show ?thesis by (simp add: newRegExp_def terms_literals consR_def)
qed

lemma matchHere_literals:
  "matchHere (map (\<lambda>c. (Lit c, False)) k @ [(AnyChar, True)]) s = startsWith s k"
proof (induction k arbitrary: s)
  case Nil then show ?case by (cases s) simp_all
next
  case (Cons c k) then show ?case by (cases s) auto
qed

lemma matchHere_star_literals:
  "matchHere ((AnyChar, True) # map (\<lambda>c. (Lit c, False)) k @ [(AnyChar, True)]) s \<Longrightarrow> hasSubstring s k"
  by (induction s) (auto simp add: matchHere_literals)

lemma test_literals:
  "test ((AnyChar, True) # map (\<lambda>c. (Lit c, False)) k @ [(AnyChar, True)]) s = hasSubstring s k"
proof (induction s)
  case Nil then show ?case by (simp add: matchHere_literals)
next
  case (Cons c s)
  then show ?case using matchHere_star_literals [of k "c # s"]
    by (auto simp add: matchHere_literals)
qed

lemma searchNinjutsuAtLevel_plain_keyword:
  assumes "getKeyword (getMatchInfo js ctx level) nm = Some k" "\<forall>c \<in> set k. \<not> syntaxCharacter c"
  shows "searchNinjutsuAtLevel js ctx nm limit level =
     Inr (take limit (filter (\<lambda>row. hasSubstring (field (propertyName (getMatchInfo js ctx level)) row) k)
       (database ctx)))"
  using assms(1) newRegExp_literals [OF assms(2)]
  by (simp add: searchNinjutsuAtLevel_def regexOf_def Let_def templateString_def test_literals)

text \<open>
  For a pattern that is not modelled, the query is the filter by the predicate that the engine
  gives for it, and fails when the constructor of the engine throws.
\<close>

lemma searchNinjutsuAtLevel_other_pattern:
  assumes "getKeyword (getMatchInfo js ctx level) nm = Some k"
    and "newRegExp (ascii ''.*'' @ k @ ascii ''.*'') = Inl Unsupported"
  shows "searchNinjutsuAtLevel js ctx nm limit level =
     (case otherRegExp js (ascii ''.*'' @ k @ ascii ''.*'') of
        Inl e \<Rightarrow> Inl e
      | Inr matches \<Rightarrow> Inr (take limit
          (filter (\<lambda>row. matches (field (propertyName (getMatchInfo js ctx level)) row)) (database ctx))))"
  using assms by (simp add: searchNinjutsuAtLevel_def regexOf_def Let_def templateString_def)

section \<open>Properties of the catalog updates\<close>

lemmas eval_update = updateDatabase_def emitDatabaseUpdate_def updateDatabasePinyin_def upsert_def
  toNinjutsuInfo_def wholeRow_def executeUpdate_def createRow_def orKeep_def getPinyin_def
  testPinyin_def testEngine_def mkSrc_def mkRow_def

text \<open>
  C8 is right as an invariant and the code breaks it: \<open>toNinjutsuInfo\<close> leaves
  \<open>namePinyin\<close> out, so the upsert of a renamed entry keeps the old value, and the backfill
  that follows only selects rows whose \<open>namePinyin\<close> is empty. Entry 1 is ingested as
  \<^verbatim>\<open>A\<close> and backfilled to \<^verbatim>\<open>a\<close>; after a refresh that renames it to \<^verbatim>\<open>B\<close>
  its \<open>namePinyin\<close> is still \<^verbatim>\<open>a\<close>, neither empty nor \<^verbatim>\<open>b\<close>.
\<close>

theorem updateDatabase_leaves_stale_namePinyin:
  "database (updateDatabase testEngine ctxP [mkSrc 1 ''A'']) = [mkRow 1 ''A'' ''A'' ''a'']
   \<and> database (updateDatabase testEngine (updateDatabase testEngine ctxP [mkSrc 1 ''A''])
        [mkSrc 1 ''B'']) = [mkRow 1 ''B'' ''B'' ''a'']
   \<and> getPinyin testEngine testPinyin (ascii ''B'') = ascii ''b''"
  by (simp add: ctxP_def eval_update eval_strings)

text \<open>
  C9, as the claim states it, fails in one part: an entry whose name is only punctuation has
  an empty \<open>nameNoPunctuation\<close>, its transliteration is empty, and the row still has an empty
  \<open>namePinyin\<close> after the backfill.
\<close>

theorem updateDatabasePinyin_leaves_empty_namePinyin:
  "database (updateDatabase testEngine ctxP [mkSrc 3 ''!'']) = [mkRow 3 ''!'' [] []]
   \<and> updateDatabasePinyin testEngine testPinyin [mkRow 3 ''!'' [] []] = [mkRow 3 ''!'' [] []]
   \<and> namePinyin (mkRow 3 ''!'' [] []) = []"
  by (simp add: ctxP_def eval_update eval_strings)

lemma executeUpdate_wholeRow: "executeUpdate row (wholeRow row') = row'"
  by (simp add: executeUpdate_def wholeRow_def orKeep_def)

lemma u_id_wholeRow: "u_id (wholeRow row) = id' row"
  by (simp add: wholeRow_def)

lemma foldl_upsertRow_Cons:
  "\<forall>u \<in> set us. u_id u \<noteq> id' x \<Longrightarrow> foldl upsertRow (x # rows) us = x # foldl upsertRow rows us"
  by (induction us arbitrary: rows) auto

lemma upsert_written_back:
  assumes "distinct (map id' rows)" "\<And>r. id' (f r) = id' r"
  shows "upsert rows (map wholeRow (map f (filter P rows))) = map (\<lambda>r. if P r then f r else r) rows"
  using assms(1)
proof (induction rows)
  case Nil
  then show ?case by (simp add: upsert_def)
next
  case (Cons r rows)
  let ?us = "map wholeRow (map f (filter P rows))"
  have ne: "\<forall>u \<in> set ?us. u_id u \<noteq> id' r"
    using Cons.prems assms(2) by (auto simp add: u_id_wholeRow image_iff)
  have ne': "\<forall>u \<in> set ?us. u_id u \<noteq> id' (f r)"
    using ne assms(2) by simp
  have IH: "foldl upsertRow rows ?us = map (\<lambda>r. if P r then f r else r) rows"
    using Cons.IH Cons.prems by (simp add: upsert_def)
  show ?case
  proof (cases "P r")
    case True
    then have "upsert (r # rows) (map wholeRow (map f (filter P (r # rows))))
        = foldl upsertRow (f r # rows) ?us"
      by (simp add: upsert_def executeUpdate_wholeRow u_id_wholeRow assms(2))
    also have "\<dots> = f r # foldl upsertRow rows ?us"
      by (rule foldl_upsertRow_Cons [OF ne'])
    finally show ?thesis using True IH by simp
  next
    case False
    then have "upsert (r # rows) (map wholeRow (map f (filter P (r # rows))))
        = foldl upsertRow (r # rows) ?us"
      by (simp add: upsert_def)
    also have "\<dots> = r # foldl upsertRow rows ?us"
      by (rule foldl_upsertRow_Cons [OF ne])
    finally show ?thesis using False IH by simp
  qed
qed

lemma updateDatabasePinyin_map:
  assumes "distinct (map id' rows)"
  shows "updateDatabasePinyin js svc rows = map (backfilled js svc) rows"
proof -
  have "updateDatabasePinyin js svc rows =
      map (\<lambda>r. if namePinyin r = [] then r\<lparr>namePinyin := getPinyin js svc (nameNoPunctuation r)\<rparr>
                else r) rows"
    unfolding updateDatabasePinyin_def Let_def
    by (rule upsert_written_back [OF assms]) simp
  then show ?thesis by (simp add: backfilled_def [abs_def])
qed

lemma backfilled_idem: "backfilled js svc (backfilled js svc row) = backfilled js svc row"
  by (simp add: backfilled_def)

text \<open>
  C9, amended: on a table whose primary key \<open>id\<close> is unique, running the backfill twice
  gives the same table as running it once; the backfill writes only \<open>namePinyin\<close>, and only in
  the rows where it is empty; a row that still has an empty \<open>namePinyin\<close> afterwards is one
  whose \<open>nameNoPunctuation\<close> has an empty transliteration.
\<close>

theorem updateDatabasePinyin_idempotent:
  assumes "distinct (map id' rows)"
  shows "updateDatabasePinyin js svc (updateDatabasePinyin js svc rows) = updateDatabasePinyin js svc rows
    \<and> updateDatabasePinyin js svc rows = map (backfilled js svc) rows
    \<and> (\<forall>row \<in> set (updateDatabasePinyin js svc rows).
          namePinyin row = [] \<longrightarrow> getPinyin js svc (nameNoPunctuation row) = [])"
proof -
  note m = updateDatabasePinyin_map [OF assms]
  have "id' \<circ> backfilled js svc = id'"
    by (rule ext) (simp add: backfilled_def)
  then have d: "distinct (map id' (map (backfilled js svc) rows))"
    using assms by simp
  have "updateDatabasePinyin js svc (map (backfilled js svc) rows) = map (backfilled js svc) rows"
    by (simp add: updateDatabasePinyin_map [OF d] backfilled_idem)
  moreover have "\<forall>row \<in> set (map (backfilled js svc) rows).
          namePinyin row = [] \<longrightarrow> getPinyin js svc (nameNoPunctuation row) = []"
    by (auto simp add: backfilled_def split: if_splits)
  ultimately show ?thesis using m by simp
qed

theorem updateDatabasePinyin_idempotent_witness:
  "distinct (map id' [mkRow 1 ''A'' ''A'' [], mkRow 3 ''!'' [] [], mkRow 4 ''C'' ''C'' ''c''])
   \<and> updateDatabasePinyin testEngine testPinyin (updateDatabasePinyin testEngine testPinyin
        [mkRow 1 ''A'' ''A'' [], mkRow 3 ''!'' [] [], mkRow 4 ''C'' ''C'' ''c''])
     = updateDatabasePinyin testEngine testPinyin
        [mkRow 1 ''A'' ''A'' [], mkRow 3 ''!'' [] [], mkRow 4 ''C'' ''C'' ''c'']
   \<and> updateDatabasePinyin testEngine testPinyin
        [mkRow 1 ''A'' ''A'' [], mkRow 3 ''!'' [] [], mkRow 4 ''C'' ''C'' ''c'']
     = [mkRow 1 ''A'' ''A'' ''a'', mkRow 3 ''!'' [] [], mkRow 4 ''C'' ''C'' ''c'']"
proof -
  have h: "distinct (map id' [mkRow 1 ''A'' ''A'' [], mkRow 3 ''!'' [] [], mkRow 4 ''C'' ''C'' ''c''])"
    by (simp add: mkRow_def)
  have e: "map (backfilled testEngine testPinyin)
        [mkRow 1 ''A'' ''A'' [], mkRow 3 ''!'' [] [], mkRow 4 ''C'' ''C'' ''c'']
     = [mkRow 1 ''A'' ''A'' ''a'', mkRow 3 ''!'' [] [], mkRow 4 ''C'' ''C'' ''c'']"
    by (simp add: backfilled_def getPinyin_def testPinyin_def testEngine_def mkRow_def ascii_def)
  note t = updateDatabasePinyin_idempotent [OF h, of testEngine testPinyin]
  have a: "updateDatabasePinyin testEngine testPinyin (updateDatabasePinyin testEngine testPinyin
        [mkRow 1 ''A'' ''A'' [], mkRow 3 ''!'' [] [], mkRow 4 ''C'' ''C'' ''c''])
     = updateDatabasePinyin testEngine testPinyin
        [mkRow 1 ''A'' ''A'' [], mkRow 3 ''!'' [] [], mkRow 4 ''C'' ''C'' ''c'']"
    by (rule t [THEN conjunct1])
  have b: "updateDatabasePinyin testEngine testPinyin
        [mkRow 1 ''A'' ''A'' [], mkRow 3 ''!'' [] [], mkRow 4 ''C'' ''C'' ''c'']
     = [mkRow 1 ''A'' ''A'' ''a'', mkRow 3 ''!'' [] [], mkRow 4 ''C'' ''C'' ''c'']"
    by (rule trans [OF t [THEN conjunct2, THEN conjunct1] e])
  show ?thesis by (intro conjI h a b)
qed

section \<open>Properties of the merged search\<close>

subsection \<open>Objects and the prototype chain\<close>

lemma map_fst_setProp:
  "map fst (setProp ob k v) = (if k \<in> set (map fst ob) then map fst ob else map fst ob @ [k])"
  by (induction ob) force+

lemma keys_setProp: "fst ` set (setProp ob k v) = insert k (fst ` set ob)"
proof -
  have "set (map fst (setProp ob k v)) = insert k (set (map fst ob))"
    unfolding map_fst_setProp by auto
  then show ?thesis by simp
qed

lemma distinct_setProp: "distinct (map fst ob) \<Longrightarrow> distinct (map fst (setProp ob k v))"
  by (simp add: map_fst_setProp)

lemma holds_setProp: "holds rows ob \<Longrightarrow> v \<in> set rows \<Longrightarrow> holds rows (setProp ob (id' v) v)"
  by (induction ob) (auto simp add: holds_def split: if_splits)

lemma foldl_setProp:
  "distinct (map fst ob) \<Longrightarrow> holds rows ob \<Longrightarrow> set ns \<subseteq> set rows \<Longrightarrow>
   distinct (map fst (foldl (\<lambda>cur n. setProp cur (id' n) n) ob ns))
   \<and> holds rows (foldl (\<lambda>cur n. setProp cur (id' n) n) ob ns)
   \<and> fst ` set (foldl (\<lambda>cur n. setProp cur (id' n) n) ob ns) = fst ` set ob \<union> id' ` set ns"
proof (induction ns arbitrary: ob)
  case Nil then show ?case by simp
next
  case (Cons n ns)
  have "distinct (map fst (setProp ob (id' n) n))" using Cons.prems(1) by (rule distinct_setProp)
  moreover have "holds rows (setProp ob (id' n) n)" using Cons.prems by (simp add: holds_setProp)
  moreover have "set ns \<subseteq> set rows" using Cons.prems by simp
  ultimately show ?case using Cons.IH [of "setProp ob (id' n) n"] by (simp add: keys_setProp)
qed

lemma toObject_props:
  "distinct (map fst (toObject rows))" "holds rows (toObject rows)"
  "fst ` set (toObject rows) = id' ` set rows"
  using foldl_setProp [of "[]" rows rows] by (simp_all add: toObject_def holds_def)

lemma set_ownKeys: "set (ownKeys ob) = fst ` set ob"
  by (auto simp add: ownKeys_def)

lemma distinct_ownKeys: "distinct (map fst ob) \<Longrightarrow> distinct (ownKeys ob)"
  by (auto simp add: ownKeys_def)

lemma sorted_ownKeys:
  assumes "distinct (map fst ob)" "\<forall>k \<in> fst ` set ob. isArrayIndex k"
  shows "sorted_wrt (<) (ownKeys ob)"
proof -
  have "filter (\<lambda>k. \<not> isArrayIndex k) (map fst ob) = []" using assms(2) by (auto simp add: filter_empty_conv)
  moreover have "filter isArrayIndex (map fst ob) = map fst ob" using assms(2) by (auto simp add: filter_id_conv)
  ultimately have "ownKeys ob = sort (map fst ob)" by (simp add: ownKeys_def)
  then show ?thesis using assms(1) by (simp add: strict_sorted_iff)
qed



lemma set_forIn: "set (forIn chain V) = (\<Union>ob \<in> set chain. fst ` set ob) - set V"
  by (induction chain arbitrary: V) (auto simp add: set_ownKeys)

lemma distinct_forIn:
  "\<forall>ob \<in> set chain. distinct (map fst ob) \<Longrightarrow> distinct (forIn chain V)"
proof (induction chain arbitrary: V)
  case Nil then show ?case by simp
next
  case (Cons ob chain)
  then show ?case by (auto simp add: distinct_ownKeys set_forIn set_ownKeys)
qed

lemma getProp_Some:
  "k \<in> (\<Union>ob \<in> set chain. fst ` set ob) \<Longrightarrow> \<exists>v. getProp chain k = Some v"
proof (induction chain)
  case Nil then show ?case by simp
next
  case (Cons ob chain)
  show ?case
  proof (cases "map_of ob k")
    case None
    then have "k \<notin> fst ` set ob" by (simp add: map_of_eq_None_iff)
    with Cons None show ?thesis by simp
  next
    case (Some v) then show ?thesis by simp
  qed
qed

lemma getProp_holds:
  "getProp (map (\<lambda>l. toObject (rowsOf l)) levels) k = Some v \<Longrightarrow>
     id' v = k \<and> (\<exists>l \<in> set levels. v \<in> set (rowsOf l))"
proof (induction levels)
  case Nil then show ?case by simp
next
  case (Cons l levels)
  show ?case
  proof (cases "map_of (toObject (rowsOf l)) k")
    case None with Cons show ?thesis by auto
  next
    case (Some w)
    then have "(k, w) \<in> set (toObject (rowsOf l))" by (rule map_of_SomeD)
    then have "w \<in> set (rowsOf l) \<and> id' w = k"
      using toObject_props(2) [of "rowsOf l"] by (auto simp add: holds_def)
    with Some Cons.prems show ?thesis by simp
  qed
qed

lemma renderLoop_result:
  "\<forall>k \<in> set ks. getProp res k = Some (val k) \<Longrightarrow>
   renderLoop res limit ks (count, shown) =
     Inr (count + length ks, shown @ map val (take (limit - count) ks))"
proof (induction ks arbitrary: count shown)
  case Nil then show ?case by simp
next
  case (Cons k ks)
  show ?case
  proof (cases "count + 1 > limit")
    case True
    then have "limit - count = 0" by simp
    with True Cons show ?thesis by (simp add: Let_def)
  next
    case False
    then obtain d where d: "limit - count = Suc d" "limit - (count + 1) = d"
      by (metis Suc_diff_Suc Suc_eq_plus1 diff_diff_left not_less_eq not_less less_Suc_eq_le)
    with False Cons show ?thesis by (simp add: Let_def)
  qed
qed

lemma searchLevels_Inr:
  "\<forall>level \<in> set levels. searchNinjutsuAtLevel js ctx keyword limit level =
      Inr (levelMatches js ctx keyword limit level) \<Longrightarrow>
   searchLevels js ctx keyword limit levels =
      Inr (map (\<lambda>level. toObject (levelMatches js ctx keyword limit level)) levels)"
  by (induction levels) (simp_all add: consR_def)

lemma searchEntries_result:
  assumes "\<forall>level \<in> set (levelsUpTo (matchLevel cfg)).
      searchNinjutsuAtLevel js ctx keyword limit level = Inr (levelMatches js ctx keyword limit level)"
  defines "curs \<equiv> map (\<lambda>level. toObject (levelMatches js ctx keyword limit level)) (levelsUpTo (matchLevel cfg))"
  shows "\<exists>shown. searchEntries js ctx cfg (Some limit) keyword = Inr (length (forIn curs []), shown)
      \<and> map id' shown = take limit (forIn curs [])
      \<and> (\<forall>n \<in> set shown. \<exists>level \<in> set (levelsUpTo (matchLevel cfg)).
            n \<in> set (levelMatches js ctx keyword limit level))"
proof -
  let ?res = "[] # curs"
  have keys: "forIn ?res [] = forIn curs []" by (simp add: ownKeys_def)
  have "\<forall>k \<in> set (forIn curs []). \<exists>v. getProp curs k = Some v"
    by (auto simp add: set_forIn intro!: getProp_Some)
  then obtain val where val: "\<forall>k \<in> set (forIn curs []). getProp curs k = Some (val k)"
    by metis
  then have val': "\<forall>k \<in> set (forIn curs []). getProp ?res k = Some (val k)" by simp
  have r: "renderLoop ?res limit (forIn curs []) (0, []) =
      Inr (length (forIn curs []), map val (take limit (forIn curs [])))"
    using renderLoop_result [OF val', of limit 0 "[]"] by simp
  have e: "searchEntries js ctx cfg (Some limit) keyword =
      Inr (length (forIn curs []), map val (take limit (forIn curs [])))"
    using searchLevels_Inr [OF assms(1)] r keys
    by (simp add: searchEntries_def curs_def Let_def)
  have p: "\<forall>k \<in> set (take limit (forIn curs [])). id' (val k) = k
      \<and> (\<exists>level \<in> set (levelsUpTo (matchLevel cfg)). val k \<in> set (levelMatches js ctx keyword limit level))"
  proof
    fix k assume "k \<in> set (take limit (forIn curs []))"
    then have "k \<in> set (forIn curs [])" by (rule in_set_takeD)
    with val have "getProp curs k = Some (val k)" by simp
    then show "id' (val k) = k
      \<and> (\<exists>level \<in> set (levelsUpTo (matchLevel cfg)). val k \<in> set (levelMatches js ctx keyword limit level))"
      unfolding curs_def by (rule getProp_holds)
  qed
  have "map id' (map val (take limit (forIn curs []))) = take limit (forIn curs [])"
    using p by (simp add: map_idI)
  moreover have "\<forall>n \<in> set (map val (take limit (forIn curs []))).
      \<exists>level \<in> set (levelsUpTo (matchLevel cfg)). n \<in> set (levelMatches js ctx keyword limit level)"
    using p by auto
  ultimately show ?thesis using e by blast
qed

subsection \<open>Order and count of the rendered entries\<close>

lemma levelMatches_rows:
  "set (levelMatches js ctx keyword limit level) \<subseteq> set (database ctx)"
  "length (levelMatches js ctx keyword limit level) \<le> limit"
  by (auto simp add: levelMatches_def searchNinjutsuAtLevel_def Let_def
      split: sum.splits dest: in_set_takeD)

lemma forIn_sorted:
  assumes "\<forall>row \<in> set (database ctx). isArrayIndex (id' row)"
  shows "sorted_wrt (tierThenId (tierOf js ctx keyword limit levels))
     (forIn (map (\<lambda>level. toObject (levelMatches js ctx keyword limit level)) levels) V)"
proof (induction levels arbitrary: V)
  case Nil then show ?case by simp
next
  case (Cons level levels)
  let ?ob = "toObject (levelMatches js ctx keyword limit level)"
  let ?chain = "map (\<lambda>level. toObject (levelMatches js ctx keyword limit level)) levels"
  let ?t = "tierOf js ctx keyword limit (level # levels)"
  let ?t' = "tierOf js ctx keyword limit levels"
  let ?own = "filter (\<lambda>k. k \<notin> set V) (ownKeys ?ob)"
  let ?rest = "forIn ?chain (V @ ownKeys ?ob)"
  have keys: "set (ownKeys ?ob) = id' ` set (levelMatches js ctx keyword limit level)"
    by (simp add: set_ownKeys toObject_props(3))
  have "\<forall>k \<in> fst ` set ?ob. isArrayIndex k"
    using assms levelMatches_rows(1) [of js ctx keyword limit level]
    by (auto simp add: toObject_props(3))
  then have "sorted_wrt (<) (ownKeys ?ob)"
    by (rule sorted_ownKeys [OF toObject_props(1)])
  then have "sorted_wrt (<) ?own" by (rule sorted_wrt_filter)
  moreover have t0: "\<forall>k \<in> set ?own. ?t k = 0" using keys by auto
  ultimately have a: "sorted_wrt (tierThenId ?t) ?own"
    by (auto simp add: tierThenId_def elim!: sorted_wrt_mono_rel [rotated])
  have tS: "\<forall>k \<in> set ?rest. ?t k = Suc (?t' k)"
    using keys by (auto simp add: set_forIn)
  have "sorted_wrt (tierThenId ?t') ?rest" by (rule Cons.IH)
  then have b: "sorted_wrt (tierThenId ?t) ?rest"
    using tS by (auto simp add: tierThenId_def elim!: sorted_wrt_mono_rel [rotated])
  have c: "\<forall>x \<in> set ?own. \<forall>y \<in> set ?rest. tierThenId ?t x y"
    using t0 tS by (simp add: tierThenId_def)
  show ?case unfolding list.map forIn.simps sorted_wrt_append using a b c by blast
qed

lemma set_forIn_levels:
  "set (forIn (map (\<lambda>level. toObject (levelMatches js ctx keyword limit level)) levels) []) =
     set (matchedIds js ctx keyword limit levels)"
  by (auto simp add: set_forIn matchedIds_def toObject_props(3))

lemma length_forIn_levels:
  "length (forIn (map (\<lambda>level. toObject (levelMatches js ctx keyword limit level)) levels) []) =
     length (matchedIds js ctx keyword limit levels)"
proof -
  let ?keys = "forIn (map (\<lambda>level. toObject (levelMatches js ctx keyword limit level)) levels) []"
  have "distinct ?keys" by (rule distinct_forIn) (simp add: toObject_props(1))
  then have "length ?keys = card (set ?keys)" by (simp add: distinct_card)
  also have "\<dots> = card (set (matchedIds js ctx keyword limit levels))"
    by (simp only: set_forIn_levels)
  also have "\<dots> = length (matchedIds js ctx keyword limit levels)"
    by (rule distinct_card) (simp add: matchedIds_def)
  finally show ?thesis .
qed

lemma length_matchedIds:
  "length (matchedIds js ctx keyword limit levels) \<le> length levels * limit"
proof -
  have "length (concat (map (\<lambda>level. map id' (levelMatches js ctx keyword limit level)) levels))
      \<le> length levels * limit"
  proof (induction levels)
    case Nil then show ?case by simp
  next
    case (Cons level levels)
    then show ?case using levelMatches_rows(2) [of js ctx keyword limit level] by simp
  qed
  moreover have "length (matchedIds js ctx keyword limit levels)
      \<le> length (concat (map (\<lambda>level. map id' (levelMatches js ctx keyword limit level)) levels))"
    unfolding matchedIds_def by (rule length_remdups_leq)
  ultimately show ?thesis by simp
qed

text \<open>
  C4, amended: when the pattern of every level is accepted, the search returns; it renders
  exactly \<open>min limit count\<close> entries, where \<open>count\<close> is the number of different ids
  among the rows that the queries of the levels returned, and replies \<^verbatim>\<open>.no-result\<close> when
  the count is 0. Each of these queries is capped at
  \<open>limit\<close>, so \<open>count\<close> is at most the number of levels times \<open>limit\<close>, and it
  depends on \<open>limit\<close>. Without the option the limit is \<open>searchLimit\<close>.
\<close>

theorem searchEntries_count:
  assumes "\<forall>level \<in> set (levelsUpTo (matchLevel cfg)).
      searchNinjutsuAtLevel js ctx keyword limit level = Inr (levelMatches js ctx keyword limit level)"
  shows "(\<exists>shown. searchEntries js ctx cfg (Some limit) keyword =
            Inr (length (matchedIds js ctx keyword limit (levelsUpTo (matchLevel cfg))), shown)
          \<and> length shown = min limit (length (matchedIds js ctx keyword limit (levelsUpTo (matchLevel cfg))))
          \<and> searchNinjutsu js ctx cfg (Some limit) keyword =
            Inr (if length (matchedIds js ctx keyword limit (levelsUpTo (matchLevel cfg))) = 0 then NoResult
                 else ResultList (map (\<lambda>n. (name n, getDescriptionPreview cfg (description n))) shown)))
     \<and> length (matchedIds js ctx keyword limit (levelsUpTo (matchLevel cfg)))
          \<le> length (levelsUpTo (matchLevel cfg)) * limit
     \<and> searchEntries js ctx cfg None keyword = searchEntries js ctx cfg (Some (searchLimit cfg)) keyword"
proof -
  from searchEntries_result [OF assms] obtain shown where
    s: "searchEntries js ctx cfg (Some limit) keyword =
          Inr (length (matchedIds js ctx keyword limit (levelsUpTo (matchLevel cfg))), shown)"
       "map id' shown = take limit
          (forIn (map (\<lambda>level. toObject (levelMatches js ctx keyword limit level)) (levelsUpTo (matchLevel cfg))) [])"
    by (auto simp add: length_forIn_levels)
  have "length shown = length (map id' shown)" by simp
  also have "\<dots> = min limit (length (matchedIds js ctx keyword limit (levelsUpTo (matchLevel cfg))))"
    unfolding s(2) by (simp add: length_forIn_levels min.commute)
  finally have "length shown = min limit (length (matchedIds js ctx keyword limit (levelsUpTo (matchLevel cfg))))" .
  moreover have "searchEntries js ctx cfg None keyword = searchEntries js ctx cfg (Some (searchLimit cfg)) keyword"
    by (simp add: searchEntries_def)
  moreover have "searchNinjutsu js ctx cfg (Some limit) keyword =
      Inr (if length (matchedIds js ctx keyword limit (levelsUpTo (matchLevel cfg))) = 0 then NoResult
           else ResultList (map (\<lambda>n. (name n, getDescriptionPreview cfg (description n))) shown))"
    using s(1) by (simp add: searchNinjutsu_def)
  ultimately show ?thesis using s(1) length_matchedIds by blast
qed

text \<open>
  C2, amended: when the pattern of every level is accepted and the ids are array indices
  (below \<open>2^32 - 1\<close>), the entries rendered have pairwise different ids, each is a row
  returned by the query of some level, and they are ordered by the first level whose query
  returned their id and, for the same level, by ascending id. When the count does not exceed the
  limit every id returned by some level is rendered.
\<close>

theorem searchEntries_order:
  assumes "\<forall>level \<in> set (levelsUpTo (matchLevel cfg)).
      searchNinjutsuAtLevel js ctx keyword limit level = Inr (levelMatches js ctx keyword limit level)"
    and "\<forall>row \<in> set (database ctx). isArrayIndex (id' row)"
  shows "\<exists>count shown. searchEntries js ctx cfg (Some limit) keyword = Inr (count, shown)
     \<and> distinct (map id' shown)
     \<and> sorted_wrt (tierThenId (tierOf js ctx keyword limit (levelsUpTo (matchLevel cfg)))) (map id' shown)
     \<and> (\<forall>n \<in> set shown. \<exists>level \<in> set (levelsUpTo (matchLevel cfg)).
            n \<in> set (levelMatches js ctx keyword limit level))
     \<and> (count \<le> limit \<longrightarrow> set (map id' shown) = set (matchedIds js ctx keyword limit (levelsUpTo (matchLevel cfg))))"
proof -
  let ?keys = "forIn (map (\<lambda>level. toObject (levelMatches js ctx keyword limit level)) (levelsUpTo (matchLevel cfg))) []"
  from searchEntries_result [OF assms(1)] obtain shown where
    s: "searchEntries js ctx cfg (Some limit) keyword = Inr (length ?keys, shown)"
       "map id' shown = take limit ?keys"
       "\<forall>n \<in> set shown. \<exists>level \<in> set (levelsUpTo (matchLevel cfg)).
            n \<in> set (levelMatches js ctx keyword limit level)"
    by blast
  have "distinct ?keys" by (rule distinct_forIn) (simp add: toObject_props(1))
  then have d: "distinct (map id' shown)" unfolding s(2) by (rule distinct_take)
  have "sorted_wrt (tierThenId (tierOf js ctx keyword limit (levelsUpTo (matchLevel cfg)))) ?keys"
    by (rule forIn_sorted [OF assms(2)])
  then have o: "sorted_wrt (tierThenId (tierOf js ctx keyword limit (levelsUpTo (matchLevel cfg)))) (map id' shown)"
    unfolding s(2) by (rule sorted_wrt_take)
  have "length ?keys \<le> limit \<longrightarrow> set (map id' shown) = set (matchedIds js ctx keyword limit (levelsUpTo (matchLevel cfg)))"
    unfolding s(2) by (simp add: set_forIn_levels)
  then show ?thesis using s(1) s(3) d o by blast
qed

lemmas eval_search = searchEntries_def cfgOf_def levelsUpTo_def eval_regexp ctxA_def mkRow_def
  ascii_def toObject_def ownKeys_def isArrayIndex_def

text \<open>
  C4, as the claim states it, fails in one part: the count depends on the limit. On the same
  catalog, keyword and level the count is 1 with the limit 1 and 2 with the limit 2.
\<close>

theorem searchEntries_count_depends_on_limit:
  "searchEntries testEngine ctxA (cfgOf Strict) (Some 1) (ascii ''a'') =
     Inr (1, [mkRow 2 ''ab'' ''ab'' []])
   \<and> searchEntries testEngine ctxA (cfgOf Strict) (Some 2) (ascii ''a'') =
     Inr (2, [mkRow 1 ''ac'' ''ac'' [], mkRow 2 ''ab'' ''ab'' []])"
  by (simp add: eval_search)

text \<open>
  C2, as the claim states it, fails in one part: within a level the entries are rendered by
  ascending id, not in the order of the query. The catalog ingested in the order 2, 1 answers
  the query of the level Strict for \<^verbatim>\<open>a\<close> with the rows 2, 1, and the search renders
  entry 1 before entry 2.
\<close>

theorem searchEntries_orders_a_level_by_id:
  "database (updateDatabase testEngine \<lparr>database = [], pinyin = None\<rparr> [mkSrc 2 ''ab'', mkSrc 1 ''ac''])
     = database ctxA
   \<and> searchNinjutsuAtLevel testEngine ctxA (ascii ''a'') 10 Strict =
     Inr [mkRow 2 ''ab'' ''ab'' [], mkRow 1 ''ac'' ''ac'' []]
   \<and> searchEntries testEngine ctxA (cfgOf Strict) (Some 10) (ascii ''a'') =
     Inr (2, [mkRow 1 ''ac'' ''ac'' [], mkRow 2 ''ab'' ''ab'' []])"
  by (simp add: eval_search eval_update eval_strings)

theorem searchEntries_count_witness:
  "list_all (\<lambda>level. searchNinjutsuAtLevel testEngine ctxB (ascii ''ab'') 1 level =
        Inr (levelMatches testEngine ctxB (ascii ''ab'') 1 level)) (levelsUpTo (matchLevel (cfgOf Normal)))
   \<and> searchEntries testEngine ctxB (cfgOf Normal) (Some 1) (ascii ''ab'') =
        Inr (2, [mkRow 5 ''ab'' ''ab'' []])
   \<and> ((\<exists>shown. searchEntries testEngine ctxB (cfgOf Normal) (Some 1) (ascii ''ab'') =
            Inr (length (matchedIds testEngine ctxB (ascii ''ab'') 1 (levelsUpTo (matchLevel (cfgOf Normal)))), shown)
          \<and> length shown = min 1 (length (matchedIds testEngine ctxB (ascii ''ab'') 1 (levelsUpTo (matchLevel (cfgOf Normal)))))
          \<and> searchNinjutsu testEngine ctxB (cfgOf Normal) (Some 1) (ascii ''ab'') =
            Inr (if length (matchedIds testEngine ctxB (ascii ''ab'') 1 (levelsUpTo (matchLevel (cfgOf Normal)))) = 0
                 then NoResult
                 else ResultList (map (\<lambda>n. (name n, getDescriptionPreview (cfgOf Normal) (description n))) shown)))
     \<and> length (matchedIds testEngine ctxB (ascii ''ab'') 1 (levelsUpTo (matchLevel (cfgOf Normal))))
          \<le> length (levelsUpTo (matchLevel (cfgOf Normal))) * 1
     \<and> searchEntries testEngine ctxB (cfgOf Normal) None (ascii ''ab'') =
         searchEntries testEngine ctxB (cfgOf Normal) (Some (searchLimit (cfgOf Normal))) (ascii ''ab''))"
proof -
  have h: "list_all (\<lambda>level. searchNinjutsuAtLevel testEngine ctxB (ascii ''ab'') 1 level =
        Inr (levelMatches testEngine ctxB (ascii ''ab'') 1 level)) (levelsUpTo (matchLevel (cfgOf Normal)))"
    by (simp add: levelMatches_def eval_search ctxB_def eval_strings)
  have e: "searchEntries testEngine ctxB (cfgOf Normal) (Some 1) (ascii ''ab'') =
        Inr (2, [mkRow 5 ''ab'' ''ab'' []])"
    by (simp add: eval_search ctxB_def eval_strings)
  show ?thesis
    by (rule conjI [OF h conjI [OF e searchEntries_count [OF h [unfolded list_all_iff]]]])
qed

theorem searchEntries_order_witness:
  "list_all (\<lambda>level. searchNinjutsuAtLevel testEngine ctxB (ascii ''ab'') 10 level =
        Inr (levelMatches testEngine ctxB (ascii ''ab'') 10 level)) (levelsUpTo (matchLevel (cfgOf Normal)))
   \<and> list_all (\<lambda>row. isArrayIndex (id' row)) (database ctxB)
   \<and> searchEntries testEngine ctxB (cfgOf Normal) (Some 10) (ascii ''ab'') =
        Inr (3, [mkRow 3 ''xab'' ''xab'' [], mkRow 5 ''ab'' ''ab'' [], mkRow 1 ''a-b'' ''ab'' []])
   \<and> map (tierOf testEngine ctxB (ascii ''ab'') 10 (levelsUpTo (matchLevel (cfgOf Normal)))) [3, 5, 1]
        = [0, 0, 1]
   \<and> (\<exists>count shown. searchEntries testEngine ctxB (cfgOf Normal) (Some 10) (ascii ''ab'') = Inr (count, shown)
     \<and> distinct (map id' shown)
     \<and> sorted_wrt (tierThenId (tierOf testEngine ctxB (ascii ''ab'') 10 (levelsUpTo (matchLevel (cfgOf Normal))))) (map id' shown)
     \<and> (\<forall>n \<in> set shown. \<exists>level \<in> set (levelsUpTo (matchLevel (cfgOf Normal))).
            n \<in> set (levelMatches testEngine ctxB (ascii ''ab'') 10 level))
     \<and> (count \<le> 10 \<longrightarrow> set (map id' shown) = set (matchedIds testEngine ctxB (ascii ''ab'') 10 (levelsUpTo (matchLevel (cfgOf Normal))))))"
proof -
  have h1: "list_all (\<lambda>level. searchNinjutsuAtLevel testEngine ctxB (ascii ''ab'') 10 level =
        Inr (levelMatches testEngine ctxB (ascii ''ab'') 10 level)) (levelsUpTo (matchLevel (cfgOf Normal)))"
    by (simp add: levelMatches_def eval_search ctxB_def eval_strings)
  have h2: "list_all (\<lambda>row. isArrayIndex (id' row)) (database ctxB)"
    by (simp add: ctxB_def mkRow_def isArrayIndex_def)
  have e: "searchEntries testEngine ctxB (cfgOf Normal) (Some 10) (ascii ''ab'') =
        Inr (3, [mkRow 3 ''xab'' ''xab'' [], mkRow 5 ''ab'' ''ab'' [], mkRow 1 ''a-b'' ''ab'' []])"
    by (simp add: eval_search ctxB_def eval_strings)
  have t: "map (tierOf testEngine ctxB (ascii ''ab'') 10 (levelsUpTo (matchLevel (cfgOf Normal)))) [3, 5, 1]
        = [0, 0, 1]"
    by (simp add: levelMatches_def eval_search ctxB_def eval_strings)
  show ?thesis
    by (rule conjI [OF h1 conjI [OF h2 conjI [OF e conjI [OF t
          searchEntries_order [OF h1 [unfolded list_all_iff] h2 [unfolded list_all_iff]]]]]])
qed

end
